theory Spec2Isabelle
  imports Complex_Main
begin

section \<open>Data model of \<open>assembly/benchmark.py\<close>\<close>

text \<open>
  One alignment record, with the fields of a BLAST tabular line that
  \<open>estsummary\<close> and \<open>rnaseqbench\<close> read. Python integers are unbounded, hence
  \<open>int\<close>.
\<close>

record BlastLine =
  query :: string
  subject :: string
  qstart :: int
  qstop :: int
  sstart :: int
  sstop :: int
  hitlen :: int
  nmismatch :: int
  ngaps :: int

text \<open>
  The exceptions the two functions can raise by themselves. \<open>sys.exit(x)\<close> raises
  \<open>SystemExit(x)\<close>; the interpreter turns an uncaught exception into the exit status
  of the process.
\<close>

datatype exn = ZeroDivisionError | KeyError | SystemExit "int option"

fun exit_status :: "exn \<Rightarrow> int" where
  "exit_status (SystemExit None) = 0"
| "exit_status (SystemExit (Some n)) = n"
| "exit_status ZeroDivisionError = 1"
| "exit_status KeyError = 1"

text \<open>
  \<open>Sizes(f).mapping\<close> is a dict from sequence id to length. It is held as an
  association list: \<open>sizes[k]\<close> is the binding found by \<open>map_of\<close> and raises
  \<open>KeyError\<close> when there is none, \<open>len(sizes)\<close> counts the distinct keys.
\<close>

type_synonym sizes = "(string \<times> int) list"

definition sizes_get :: "sizes \<Rightarrow> string \<Rightarrow> exn + int" where
  "sizes_get sizes k = (case map_of sizes k of None \<Rightarrow> Inl KeyError | Some v \<Rightarrow> Inr v)"

definition sizes_len :: "sizes \<Rightarrow> int" where
  "sizes_len sizes = int (length (remdups (map fst sizes)))"

text \<open>
  \<open>a * 100. / b\<close>: a float division, which raises on a zero divisor. Floats are
  idealised as exact reals: the rounding of a quotient that no double holds, and the
  \<open>OverflowError\<close> of an integer too large for a double, are not modelled. Where
  the operands are small integers and the quotient is an integer, as in the concrete
  runs below, the double and the real are the same number.
\<close>

definition py_fdiv :: "real \<Rightarrow> real \<Rightarrow> exn + real" where
  "py_fdiv a b = (if b = 0 then Inl ZeroDivisionError else Inr (a / b))"

text \<open>
  What a run does to the outside: the help text, the collaborators it calls and the
  lines it prints. A printed line is kept as its format string and the arguments of
  \<open>format\<close>; the rendering of the text is not modelled.
\<close>

datatype fmt_arg = S string | I int | F real

datatype event =
    PrintHelp
  | ReadSizes string
  | OpenBlast string
  | CallSupermap string string
  | Stdout string "fmt_arg list"
  | Stderr string "fmt_arg list"

text \<open>
  The collaborators are parameters: what \<open>op.exists\<close>, \<open>Sizes(f).mapping\<close>,
  \<open>BlastSlow(f).iter_hits()\<close>, \<open>Blast(f).iter_hits()\<close> and \<open>Blast(f).iter_line()\<close>
  give for each path. Their own failures (an unreadable file, a malformed line) are
  outside the model.
\<close>

record world =
  path_exists :: "string \<Rightarrow> bool"
  Sizes_mapping :: "string \<Rightarrow> sizes"
  BlastSlow_iter_hits :: "string \<Rightarrow> (string \<times> BlastLine list) list"
  Blast_iter_hits :: "string \<Rightarrow> (string \<times> BlastLine list) list"
  Blast_iter_line :: "string \<Rightarrow> BlastLine list"

text \<open>
  \<open>p.print_help()\<close> writes the help text and returns \<open>None\<close>.
\<close>

definition print_help :: "event list \<times> int option" where
  "print_help = ([PrintHelp], None)"

definition sys_exit :: "int option \<Rightarrow> exn" where
  "sys_exit x = SystemExit x"

section \<open>\<open>estsummary\<close>\<close>

text \<open>
  The options after \<open>parse_args\<close>, with the defaults of the three \<open>add_option\<close>
  calls.
\<close>

record opts =
  opt_ident :: int
  opt_cov :: int
  opt_list :: bool

definition default_opts :: opts where
  "default_opts = \<lparr>opt_ident = 95, opt_cov = 90, opt_list = False\<rparr>"

text \<open>The per-gene accumulators of the inner loop over \<open>blines\<close>.\<close>

record this_sums =
  this_covered :: int
  this_alignlen :: int
  this_mismatches :: int
  this_gaps :: int

definition this_init :: this_sums where
  "this_init = \<lparr>this_covered = 0, this_alignlen = 0, this_mismatches = 0, this_gaps = 0\<rparr>"

definition this_add :: "this_sums \<Rightarrow> BlastLine \<Rightarrow> this_sums" where
  "this_add t b =
     \<lparr>this_covered = this_covered t + \<bar>qstart b - qstop b + 1\<bar>,
      this_alignlen = this_alignlen t + hitlen b,
      this_mismatches = this_mismatches t + nmismatch b,
      this_gaps = this_gaps t + ngaps b\<rparr>"

definition this_loop :: "BlastLine list \<Rightarrow> this_sums" where
  "this_loop blines = foldl this_add this_init blines"

definition this_identity :: "this_sums \<Rightarrow> exn + real" where
  "this_identity t =
     (case py_fdiv (of_int (this_mismatches t + this_gaps t) * 100) (of_int (this_alignlen t)) of
        Inl e \<Rightarrow> Inl e
      | Inr r \<Rightarrow> Inr (100 - r))"

definition this_coverage :: "sizes \<Rightarrow> string \<Rightarrow> this_sums \<Rightarrow> exn + real" where
  "this_coverage sizes q t =
     (case sizes_get sizes q of
        Inl e \<Rightarrow> Inl e
      | Inr sz \<Rightarrow> py_fdiv (of_int (this_covered t) * 100) (of_int sz))"

text \<open>The locals of \<open>estsummary\<close> that live across the loop over \<open>iter_hits\<close>.\<close>

record est_state =
  covered :: int
  mismatches :: int
  gaps :: int
  alignlen :: int
  queries :: "string set"
  valid_count :: int
  mapped_count :: int

definition est_init :: est_state where
  "est_init = \<lparr>covered = 0, mismatches = 0, gaps = 0, alignlen = 0, queries = {},
     valid_count = 0, mapped_count = 0\<rparr>"

text \<open>The first two statements of the loop body.\<close>

definition est_enter :: "est_state \<Rightarrow> string \<Rightarrow> est_state" where
  "est_enter st q = st\<lparr>queries := insert q (queries st), mapped_count := mapped_count st + 1\<rparr>"

text \<open>
  One pass of the loop body for the group \<open>(query, blines)\<close>: the output it prints
  and either the exception it raises or the state it leaves.
\<close>

definition est_body ::
  "opts \<Rightarrow> sizes \<Rightarrow> est_state \<Rightarrow> string \<times> BlastLine list \<Rightarrow> event list \<times> (exn + est_state)"
where
  "est_body opts sizes st g =
     (let q = fst g; blines = snd g;
          st1 = est_enter st q;
          t = this_loop blines
      in case this_identity t of
           Inl e \<Rightarrow> ([], Inl e)
         | Inr idn \<Rightarrow>
            (case this_coverage sizes q t of
               Inl e \<Rightarrow> ([], Inl e)
             | Inr cv \<Rightarrow>
                 (if opt_list opts then [Stdout (''{0}'' @ [CHR 0x09] @ ''{1:.1f}'' @ [CHR 0x09] @ ''{2:.1f}'')
                      [S q, F idn, F cv]] else [],
                  Inr (st1\<lparr>valid_count :=
                              (if idn > of_int (opt_ident opts) \<and> cv > of_int (opt_cov opts)
                               then valid_count st1 + 1 else valid_count st1),
                            covered := covered st1 + this_covered t,
                            mismatches := mismatches st1 + this_mismatches t,
                            gaps := gaps st1 + this_gaps t,
                            alignlen := alignlen st1 + this_alignlen t\<rparr>))))"

fun est_loop ::
  "opts \<Rightarrow> sizes \<Rightarrow> est_state \<Rightarrow> (string \<times> BlastLine list) list \<Rightarrow> event list \<times> (exn + est_state)"
where
  "est_loop opts sizes st [] = ([], Inr st)"
| "est_loop opts sizes st (g # gs) =
     (case est_body opts sizes st g of
        (out, Inl e) \<Rightarrow> (out, Inl e)
      | (out, Inr st') \<Rightarrow>
          (case est_loop opts sizes st' gs of (out', r) \<Rightarrow> (out @ out', r)))"

text \<open>
  \<open>sum(sizes[x] for x in queries)\<close>: every member of \<open>queries\<close> is looked up.
\<close>

definition sum_sizes :: "sizes \<Rightarrow> string set \<Rightarrow> exn + int" where
  "sum_sizes sizes qs =
     (if \<forall>x\<in>qs. map_of sizes x \<noteq> None
      then Inr (\<Sum>x\<in>qs. the (map_of sizes x)) else Inl KeyError)"

text \<open>
  The seven lines written to \<open>sys.stderr\<close> after the loop. The arguments of a line
  are evaluated before the line is written, so a division that raises leaves the
  earlier lines printed and this one not.
\<close>

definition est_report :: "opts \<Rightarrow> sizes \<Rightarrow> est_state \<Rightarrow> event list \<times> (exn + est_state)" where
  "est_report opts sizes st =
     (let total = sizes_len sizes;
          out1 = [Stderr ''Cutoff: {0}% ident, {1}% cov'' [I (opt_ident opts), I (opt_cov opts)],
                  Stderr ''Identity: {0} mismatches, {1} gaps, {2} alignlen''
                    [I (mismatches st), I (gaps st), I (alignlen st)]]
      in (case py_fdiv (of_int (mapped_count st) * 100) (of_int total) of
            Inl e \<Rightarrow> (out1, Inl e)
          | Inr pm \<Rightarrow>
     (let out2 = out1 @ [Stderr ''Total mapped: {0} ({1:.1f}% of {2})''
                           [I (mapped_count st), F pm, I total]]
      in (case py_fdiv (of_int (valid_count st) * 100) (of_int total) of
            Inl e \<Rightarrow> (out2, Inl e)
          | Inr pv \<Rightarrow>
     (let out3 = out2 @ [Stderr ''Total valid: {0} ({1:.1f}% of {2})''
                           [I (valid_count st), F pv, I total]]
      in (case py_fdiv (of_int (mismatches st + gaps st) * 100) (of_int (alignlen st)) of
            Inl e \<Rightarrow> (out3, Inl e)
          | Inr r \<Rightarrow>
     (let out4 = out3 @ [Stderr ''Overal ident% = {0:.1f}%'' [F (100 - r)]]
      in (case sum_sizes sizes (queries st) of
            Inl e \<Rightarrow> (out4, Inl e)
          | Inr queries_combined \<Rightarrow>
     (let out5 = out4 @ [Stderr ''Coverage: {0} covered, {1} total''
                           [I (covered st), I queries_combined]]
      in (case py_fdiv (of_int (covered st) * 100) (of_int queries_combined) of
            Inl e \<Rightarrow> (out5, Inl e)
          | Inr pc \<Rightarrow>
              (out5 @ [Stderr ''Coverage = {0:.1f}%'' [F pc]], Inr st)))))))))))"

text \<open>
  \<open>estsummary(args)\<close>, from the options and positional arguments that \<open>parse_args\<close>
  returns. The Python function returns \<open>None\<close>; the model returns the final locals,
  so that the counts can be observed.
\<close>

definition estsummary :: "world \<Rightarrow> opts \<Rightarrow> string list \<Rightarrow> event list \<times> (exn + est_state)" where
  "estsummary w opts args =
     (if length args \<noteq> 2 then (fst print_help, Inl (sys_exit (snd print_help)))
      else
        let blastfile = args ! 0; fastafile = args ! 1;
            sizes = Sizes_mapping w fastafile;
            out0 = [ReadSizes fastafile, OpenBlast blastfile]
        in case est_loop opts sizes est_init (BlastSlow_iter_hits w blastfile) of
             (out, Inl e) \<Rightarrow> (out0 @ out, Inl e)
           | (out, Inr st) \<Rightarrow>
               (case est_report opts sizes st of (out', r) \<Rightarrow> (out0 @ out @ out', r)))"

section \<open>\<open>rnaseqbench\<close>\<close>

text \<open>
  \<open>bps = defaultdict(int)\<close>, held as an association list in the order the keys were
  first written (Python leaves the order of \<open>items()\<close> open). \<open>bps[k] += d\<close> reads
  0 for a key that is not there yet.
\<close>

fun bps_add :: "(string \<times> int) list \<Rightarrow> string \<Rightarrow> int \<Rightarrow> (string \<times> int) list" where
  "bps_add [] k d = [(k, 0 + d)]"
| "bps_add ((k', v) # rest) k d =
     (if k' = k then (k', v + d) # rest else (k', v) # bps_add rest k d)"

definition bps_loop :: "BlastLine list \<Rightarrow> (string \<times> int) list" where
  "bps_loop hits = foldl (\<lambda>bps x. bps_add bps (subject x) (\<bar>sstop x - sstart x\<bar> + 1)) [] hits"

text \<open>The locals of \<open>rnaseqbench\<close> that the two passes fill.\<close>

record bench_state =
  chimers :: int
  goodctg80 :: "string set"
  goodctg50 :: "string set"
  goodref80 :: "string set"
  goodref50 :: "string set"

definition bench_init :: bench_state where
  "bench_init = \<lparr>chimers = 0, goodctg80 = {}, goodctg50 = {}, goodref80 = {}, goodref50 = {}\<rparr>"

text \<open>The loop over \<open>valid_hits\<close> of the query-direction pass.\<close>

fun ctg_bands :: "sizes \<Rightarrow> string \<Rightarrow> (string \<times> int) list \<Rightarrow> bench_state \<Rightarrow> exn + bench_state" where
  "ctg_bands sizes ctg [] st = Inr st"
| "ctg_bands sizes ctg ((vh, len) # rest) st =
     (case sizes_get sizes vh of
        Inl e \<Rightarrow> Inl e
      | Inr rsize \<Rightarrow>
          (case py_fdiv (of_int len * 100) (of_int rsize) of
             Inl e \<Rightarrow> Inl e
           | Inr ratio \<Rightarrow>
               ctg_bands sizes ctg rest
                 (st\<lparr>goodctg80 := (if ratio \<ge> 80 then insert ctg (goodctg80 st) else goodctg80 st),
                     goodctg50 := (if ratio \<ge> 50 then insert ctg (goodctg50 st) else goodctg50 st)\<rparr>)))"

definition ctg_body :: "sizes \<Rightarrow> bench_state \<Rightarrow> string \<times> BlastLine list \<Rightarrow> exn + bench_state" where
  "ctg_body sizes st g =
     (let ctg = fst g; hits = snd g;
          valid_hits = bps_loop hits
      in case ctg_bands sizes ctg valid_hits st of
           Inl e \<Rightarrow> Inl e
         | Inr st' \<Rightarrow>
             Inr (if int (length valid_hits) > 1 then st'\<lparr>chimers := chimers st' + 1\<rparr> else st'))"

fun ctg_loop :: "sizes \<Rightarrow> bench_state \<Rightarrow> (string \<times> BlastLine list) list \<Rightarrow> exn + bench_state" where
  "ctg_loop sizes st [] = Inr st"
| "ctg_loop sizes st (g # gs) =
     (case ctg_body sizes st g of
        Inl e \<Rightarrow> Inl e
      | Inr st' \<Rightarrow> ctg_loop sizes st' gs)"

text \<open>The loop over \<open>bps.items()\<close> of the reference-direction pass.\<close>

fun ref_bands :: "sizes \<Rightarrow> (string \<times> int) list \<Rightarrow> bench_state \<Rightarrow> exn + bench_state" where
  "ref_bands sizes [] st = Inr st"
| "ref_bands sizes ((vh, len) # rest) st =
     (case sizes_get sizes vh of
        Inl e \<Rightarrow> Inl e
      | Inr rsize \<Rightarrow>
          (case py_fdiv (of_int len * 100) (of_int rsize) of
             Inl e \<Rightarrow> Inl e
           | Inr ratio \<Rightarrow>
               ref_bands sizes rest
                 (st\<lparr>goodref80 := (if ratio \<ge> 80 then insert vh (goodref80 st) else goodref80 st),
                     goodref50 := (if ratio \<ge> 50 then insert vh (goodref50 st) else goodref50 st)\<rparr>)))"

definition ref_pass :: "sizes \<Rightarrow> bench_state \<Rightarrow> BlastLine list \<Rightarrow> exn + bench_state" where
  "ref_pass sizes st lines = ref_bands sizes (bps_loop lines) st"

text \<open>The six lines written to \<open>sys.stderr\<close>; \<open>len\<close> of a set is its cardinality.\<close>

definition bench_report :: "string \<Rightarrow> int \<Rightarrow> bench_state \<Rightarrow> event list \<times> (exn + bench_state)" where
  "bench_report reffasta known_genes st =
     (let out3 =
            [Stderr ''Reference set: `{0}`,  # of transcripts {1}'' [S reffasta, I known_genes],
             Stderr ''A total of {0} contigs map to 80% of a reference transcript''
               [I (int (card (goodctg80 st)))],
             Stderr ''A total of {0} contigs map to 50% of a reference transcript''
               [I (int (card (goodctg50 st)))]]
      in (case py_fdiv (of_int (int (card (goodref80 st))) * 100) (of_int known_genes) of
            Inl e \<Rightarrow> (out3, Inl e)
          | Inr p80 \<Rightarrow>
     (let out4 = out3 @
            [Stderr ''A total of {0} reference transcripts ({1:.1f}%) have 80% covered''
               [I (int (card (goodref80 st))), F p80]]
      in (case py_fdiv (of_int (int (card (goodref50 st))) * 100) (of_int known_genes) of
            Inl e \<Rightarrow> (out4, Inl e)
          | Inr p50 \<Rightarrow>
              (out4 @
                 [Stderr ''A total of {0} reference transcripts ({1:.1f}%) have 50% covered''
                    [I (int (card (goodref50 st))), F p50],
                  Stderr ''Chimers: {0}.'' [I (chimers st)]],
               Inr st)))))"

text \<open>
  The two derived paths, and the guarded call of the filter: \<open>supermap\<close> is the
  collaborator, a parameter that takes the alignment file, the direction and the
  world, and leaves a new world.
\<close>

definition querysupermap :: "string \<Rightarrow> string" where
  "querysupermap blastfile = blastfile @ ''.query.supermap''"

definition refsupermap :: "string \<Rightarrow> string" where
  "refsupermap blastfile = blastfile @ ''.ref.supermap''"

definition ensure_supermap ::
  "(string \<Rightarrow> string \<Rightarrow> world \<Rightarrow> world) \<Rightarrow> string \<Rightarrow> string \<Rightarrow> string \<Rightarrow> world \<Rightarrow> event list \<times> world"
where
  "ensure_supermap supermap artifact blastfile dir w =
     (if \<not> path_exists w artifact
      then ([CallSupermap blastfile dir], supermap blastfile dir w) else ([], w))"

text \<open>Lines 142 to 145: the two guarded calls, one after the other.\<close>

definition make_artifacts ::
  "(string \<Rightarrow> string \<Rightarrow> world \<Rightarrow> world) \<Rightarrow> string \<Rightarrow> world \<Rightarrow> event list \<times> world"
where
  "make_artifacts supermap blastfile w =
     (let s1 = ensure_supermap supermap (querysupermap blastfile) blastfile ''query'' w;
          s2 = ensure_supermap supermap (refsupermap blastfile) blastfile ''ref'' (snd s1)
      in (fst s1 @ fst s2, snd s2))"

text \<open>
  \<open>rnaseqbench(args)\<close>, from the positional arguments that \<open>parse_args\<close> returns
  (the parser has no option of its own). The size table is read first; the two
  alignment artifacts are read after both guarded calls of the filter.
\<close>

definition rnaseqbench ::
  "(string \<Rightarrow> string \<Rightarrow> world \<Rightarrow> world) \<Rightarrow> world \<Rightarrow> string list \<Rightarrow> event list \<times> (exn + bench_state)"
where
  "rnaseqbench supermap w args =
     (if length args \<noteq> 2 then (fst print_help, Inl (sys_exit (snd print_help)))
      else
        let blastfile = args ! 0; reffasta = args ! 1;
            sizes = Sizes_mapping w reffasta;
            known_genes = sizes_len sizes;
            a = make_artifacts supermap blastfile w;
            w2 = snd a;
            out0 = [ReadSizes reffasta] @ fst a @ [OpenBlast (querysupermap blastfile)]
        in case ctg_loop sizes bench_init (Blast_iter_hits w2 (querysupermap blastfile)) of
             Inl e \<Rightarrow> (out0, Inl e)
           | Inr st \<Rightarrow>
               (let out1 = out0 @ [OpenBlast (refsupermap blastfile)]
                in case ref_pass sizes st (Blast_iter_line w2 (refsupermap blastfile)) of
                     Inl e \<Rightarrow> (out1, Inl e)
                   | Inr st' \<Rightarrow>
                       (case bench_report reffasta known_genes st' of
                          (out', r) \<Rightarrow> (out1 @ out', r))))"

text \<open>
  The exit status of the process after a run: that of the uncaught exception, or 0
  when the function returns.
\<close>

definition run_status :: "event list \<times> (exn + 'a) \<Rightarrow> int" where
  "run_status r = (case snd r of Inl e \<Rightarrow> exit_status e | Inr v \<Rightarrow> 0)"

section \<open>The aggregates as the specification words them\<close>

text \<open>
  Covered bases of a group as the specification defines them: the sum over the
  records of \<open>|qstart - qstop| + 1\<close>.
\<close>

definition spec_covered :: "BlastLine list \<Rightarrow> int" where
  "spec_covered blines = (\<Sum>b\<leftarrow>blines. \<bar>qstart b - qstop b\<bar> + 1)"

text \<open>
  The two percentages and the validity of a query as the specification defines them,
  from the aggregates of its group and its total length.
\<close>

definition spec_identity :: "BlastLine list \<Rightarrow> real" where
  "spec_identity blines =
     100 - of_int ((\<Sum>b\<leftarrow>blines. nmismatch b) + (\<Sum>b\<leftarrow>blines. ngaps b)) * 100
             / of_int (\<Sum>b\<leftarrow>blines. hitlen b)"

definition spec_coverage :: "int \<Rightarrow> BlastLine list \<Rightarrow> real" where
  "spec_coverage total_length blines = of_int (spec_covered blines) * 100 / of_int total_length"

definition spec_valid :: "opts \<Rightarrow> int \<Rightarrow> BlastLine list \<Rightarrow> bool" where
  "spec_valid opts total_length blines =
     (spec_identity blines > of_int (opt_ident opts) \<and>
      spec_coverage total_length blines > of_int (opt_cov opts))"

text \<open>
  The groups that the code counts as valid: both percentages are computed, and each,
  as the code computes it, is strictly above its threshold.
\<close>

definition est_valid :: "opts \<Rightarrow> sizes \<Rightarrow> string \<times> BlastLine list \<Rightarrow> bool" where
  "est_valid opts sizes g =
     (case this_identity (this_loop (snd g)) of
        Inl e \<Rightarrow> False
      | Inr idn \<Rightarrow>
          (case this_coverage sizes (fst g) (this_loop (snd g)) of
             Inl e \<Rightarrow> False
           | Inr cv \<Rightarrow> idn > of_int (opt_ident opts) \<and> cv > of_int (opt_cov opts)))"

text \<open>
  The precondition on the alignment stream: no query id is yielded twice, and every
  query id yielded has an entry in the size table.
\<close>

definition known_once :: "sizes \<Rightarrow> (string \<times> BlastLine list) list \<Rightarrow> bool" where
  "known_once sizes groups =
     (distinct (map fst groups) \<and> (\<forall>g\<in>set groups. map_of sizes (fst g) \<noteq> None))"

text \<open>
  The number of distinct subject ids among the records of a group, and the groups
  that count as chimeric: those with at least two.
\<close>

definition distinct_subjects :: "BlastLine list \<Rightarrow> nat" where
  "distinct_subjects hits = card (subject ` set hits)"

definition chimeric :: "string \<times> BlastLine list \<Rightarrow> bool" where
  "chimeric g = (2 \<le> distinct_subjects (snd g))"

text \<open>The events that are calls of the filter.\<close>

fun is_call :: "event \<Rightarrow> bool" where
  "is_call (CallSupermap b d) = True"
| "is_call e = False"

section \<open>Concrete inputs\<close>

definition hit ::
  "string \<Rightarrow> string \<Rightarrow> int \<Rightarrow> int \<Rightarrow> int \<Rightarrow> int \<Rightarrow> int \<Rightarrow> int \<Rightarrow> int \<Rightarrow> BlastLine"
where
  "hit q s qa qb sa sb hl mm gp =
     \<lparr>query = q, subject = s, qstart = qa, qstop = qb, sstart = sa, sstop = sb,
      hitlen = hl, nmismatch = mm, ngaps = gp\<rparr>"

text \<open>A world where every path exists and holds the same table and records.\<close>

definition fixed_world ::
  "sizes \<Rightarrow> (string \<times> BlastLine list) list \<Rightarrow> BlastLine list \<Rightarrow> world"
where
  "fixed_world sizes groups lines =
     \<lparr>path_exists = (\<lambda>p. True), Sizes_mapping = (\<lambda>p. sizes),
      BlastSlow_iter_hits = (\<lambda>p. groups), Blast_iter_hits = (\<lambda>p. groups),
      Blast_iter_line = (\<lambda>p. lines)\<rparr>"

text \<open>The same world with no path on disk.\<close>

definition bare_world ::
  "sizes \<Rightarrow> (string \<times> BlastLine list) list \<Rightarrow> BlastLine list \<Rightarrow> world"
where
  "bare_world sizes groups lines = (fixed_world sizes groups lines)\<lparr>path_exists := (\<lambda>p. False)\<rparr>"

text \<open>A stand-in for the filter that does nothing but create its artifact.\<close>

definition touch_supermap :: "string \<Rightarrow> string \<Rightarrow> world \<Rightarrow> world" where
  "touch_supermap blastfile dir w =
     w\<lparr>path_exists := (\<lambda>p. p = blastfile @ ''.'' @ dir @ ''.supermap'' \<or> path_exists w p)\<rparr>"

text \<open>
  Two reference genes and two contigs: \<open>ctg1\<close> covers 850 of the 1000 bases of
  \<open>geneA\<close> and one base of \<open>geneB\<close>; \<open>ctg2\<close> covers \<open>geneB\<close> in two fragments of
  100 bases. \<open>ex_final\<close> is what \<open>rnaseqbench\<close> leaves on them.
\<close>

definition ex_sizes :: sizes where
  "ex_sizes = [(''geneA'', 1000), (''geneB'', 500)]"

definition ex_groups :: "(string \<times> BlastLine list) list" where
  "ex_groups =
     [(''ctg1'', [hit ''ctg1'' ''geneA'' 1 850 1 850 850 0 0, hit ''ctg1'' ''geneB'' 900 900 7 7 1 0 0]),
      (''ctg2'', [hit ''ctg2'' ''geneB'' 1 100 1 100 100 0 0,
                  hit ''ctg2'' ''geneB'' 101 200 400 301 100 0 0])]"

definition ex_lines :: "BlastLine list" where
  "ex_lines = [hit ''ctg1'' ''geneA'' 1 850 1 850 850 0 0, hit ''ctg2'' ''geneB'' 1 300 1 300 300 0 0]"

definition ex_final :: bench_state where
  "ex_final = \<lparr>chimers = 1, goodctg80 = {''ctg1''}, goodctg50 = {''ctg1''},
     goodref80 = {''geneA''}, goodref50 = {''geneB'', ''geneA''}\<rparr>"

text \<open>A contig that touches \<open>geneA\<close> on 100 bases and \<open>geneB\<close> on a single base.\<close>

definition ex_thin :: "string \<times> BlastLine list" where
  "ex_thin = (''ctg1'', [hit ''ctg1'' ''geneA'' 1 100 1 100 100 0 0,
                         hit ''ctg1'' ''geneB'' 900 900 7 7 1 0 0])"

section \<open>Facts about \<open>estsummary\<close>\<close>

lemma foldl_this_add:
  "foldl this_add t bs =
     \<lparr>this_covered = this_covered t + (\<Sum>b\<leftarrow>bs. \<bar>qstart b - qstop b + 1\<bar>),
      this_alignlen = this_alignlen t + (\<Sum>b\<leftarrow>bs. hitlen b),
      this_mismatches = this_mismatches t + (\<Sum>b\<leftarrow>bs. nmismatch b),
      this_gaps = this_gaps t + (\<Sum>b\<leftarrow>bs. ngaps b)\<rparr>"
  by (induction bs arbitrary: t) (simp_all add: this_add_def)

lemma this_loop_sums:
  "this_covered (this_loop bs) = (\<Sum>b\<leftarrow>bs. \<bar>qstart b - qstop b + 1\<bar>)"
  "this_alignlen (this_loop bs) = (\<Sum>b\<leftarrow>bs. hitlen b)"
  "this_mismatches (this_loop bs) = (\<Sum>b\<leftarrow>bs. nmismatch b)"
  "this_gaps (this_loop bs) = (\<Sum>b\<leftarrow>bs. ngaps b)"
  by (simp_all add: this_loop_def foldl_this_add this_init_def)

lemma this_identity_eq:
  "this_identity t =
     (if this_alignlen t = 0 then Inl ZeroDivisionError
      else Inr (100 - of_int (this_mismatches t + this_gaps t) * 100 / of_int (this_alignlen t)))"
  by (simp add: this_identity_def py_fdiv_def)

lemma est_body_zero:
  "this_alignlen (this_loop (snd g)) = 0 \<Longrightarrow> est_body opts sizes st g = ([], Inl ZeroDivisionError)"
  by (simp add: est_body_def this_identity_eq Let_def)

lemma est_loop_zero:
  "g \<in> set gs \<Longrightarrow> this_alignlen (this_loop (snd g)) = 0 \<Longrightarrow>
     \<exists>out e. est_loop opts sizes st gs = (out, Inl e)"
proof (induction gs arbitrary: st)
  case Nil
  then show ?case by simp
next
  case (Cons a gs)
  show ?case
  proof (cases "est_body opts sizes st a")
    case (Pair out r)
    show ?thesis
    proof (cases r)
      case (Inl e)
      with Pair show ?thesis by simp
    next
      case (Inr st')
      have "a \<noteq> g"
        using Pair Inr Cons.prems(2) est_body_zero [of a opts sizes st] by auto
      with Cons.prems have "g \<in> set gs" by simp
      from Cons.IH [OF this Cons.prems(2), of st'] obtain out' e
        where "est_loop opts sizes st' gs = (out', Inl e)" by blast
      with Pair Inr show ?thesis by simp
    qed
  qed
qed

lemma estsummary_two:
  "estsummary w opts [b, f] =
     (case est_loop opts (Sizes_mapping w f) est_init (BlastSlow_iter_hits w b) of
        (out, Inl e) \<Rightarrow> ([ReadSizes f, OpenBlast b] @ out, Inl e)
      | (out, Inr st) \<Rightarrow>
          (case est_report opts (Sizes_mapping w f) st of
             (out', r) \<Rightarrow> ([ReadSizes f, OpenBlast b] @ out @ out', r)))"
  by (simp add: estsummary_def Let_def split: prod.splits sum.splits)

lemma est_report_state:
  "est_report opts sizes st = (out, Inr st') \<Longrightarrow> st' = st"
  by (auto simp: est_report_def Let_def split: sum.splits)

lemma estsummary_Inr:
  "estsummary w opts [b, f] = (out, Inr st) \<Longrightarrow>
     \<exists>out1. est_loop opts (Sizes_mapping w f) est_init (BlastSlow_iter_hits w b) = (out1, Inr st)"
  by (auto simp: estsummary_two split: prod.splits sum.splits dest: est_report_state)

lemma est_body_Inr:
  "est_body opts sizes st g = (out, Inr st') \<Longrightarrow>
     mapped_count st' = mapped_count st + 1 \<and>
     queries st' = insert (fst g) (queries st) \<and>
     valid_count st' = valid_count st + (if est_valid opts sizes g then 1 else 0)"
  by (auto simp: est_body_def est_valid_def Let_def est_enter_def split: sum.splits)

lemma est_loop_Inr:
  "est_loop opts sizes st gs = (out, Inr st') \<Longrightarrow>
     mapped_count st' = mapped_count st + int (length gs) \<and>
     valid_count st' = valid_count st + int (length (filter (est_valid opts sizes) gs))"
proof (induction gs arbitrary: st out)
  case Nil
  then show ?case by simp
next
  case (Cons g gs)
  from Cons.prems obtain o1 s1 o2 where
    b: "est_body opts sizes st g = (o1, Inr s1)" and
    l: "est_loop opts sizes s1 gs = (o2, Inr st')"
    by (auto split: prod.splits sum.splits)
  from est_body_Inr [OF b] Cons.IH [OF l] show ?case by simp
qed

lemma length_le_sizes_len:
  assumes "known_once sizes groups"
  shows "int (length groups) \<le> sizes_len sizes"
proof -
  from assms have d: "distinct (map fst groups)"
    and s: "set (map fst groups) \<subseteq> set (map fst sizes)"
    by (auto simp: known_once_def map_of_eq_None_iff)
  have "length groups = card (set (map fst groups))"
    using distinct_card [OF d] by simp
  also have "\<dots> \<le> card (set (map fst sizes))"
    using s by (intro card_mono) simp_all
  also have "\<dots> = length (remdups (map fst sizes))"
    by (simp add: length_remdups_card_conv)
  finally show ?thesis by (simp add: sizes_len_def)
qed

text \<open>The definitions that a concrete run of \<open>estsummary\<close> unfolds.\<close>

lemmas est_eval = estsummary_def fixed_world_def est_body_def this_identity_def this_coverage_def
      py_fdiv_def sizes_get_def sizes_len_def sum_sizes_def est_report_def est_init_def est_enter_def
      this_loop_def this_add_def this_init_def hit_def default_opts_def est_valid_def Let_def

section \<open>Facts about \<open>rnaseqbench\<close>\<close>

lemma bps_add_keys:
  "map fst (bps_add bps k d) = (if k \<in> set (map fst bps) then map fst bps else map fst bps @ [k])"
  by (induction bps k d rule: bps_add.induct) auto

lemma bps_fold_keys:
  "distinct (map fst acc) \<Longrightarrow>
     distinct (map fst (foldl (\<lambda>bps x. bps_add bps (subject x) (d x)) acc hits)) \<and>
     set (map fst (foldl (\<lambda>bps x. bps_add bps (subject x) (d x)) acc hits))
       = set (map fst acc) \<union> subject ` set hits"
proof (induction hits arbitrary: acc)
  case Nil
  then show ?case by simp
next
  case (Cons h hits)
  have "distinct (map fst (bps_add acc (subject h) (d h)))"
    using Cons.prems by (simp add: bps_add_keys)
  from Cons.IH [OF this] show ?case
    by (auto simp: bps_add_keys)
qed

lemma length_bps_loop: "length (bps_loop hits) = distinct_subjects hits"
proof -
  have "distinct (map fst (bps_loop hits)) \<and> set (map fst (bps_loop hits)) = subject ` set hits"
    using bps_fold_keys [of "[]" "\<lambda>x. \<bar>sstop x - sstart x\<bar> + 1" hits]
    by (simp add: bps_loop_def)
  then have "card (subject ` set hits) = length (map fst (bps_loop hits))"
    using distinct_card by metis
  then show ?thesis by (simp add: distinct_subjects_def)
qed

lemma ctg_bands_Inr:
  "ctg_bands sizes ctg items st = Inr st' \<Longrightarrow>
     chimers st' = chimers st \<and> goodref80 st' = goodref80 st \<and> goodref50 st' = goodref50 st \<and>
     (goodctg80 st \<subseteq> goodctg50 st \<longrightarrow> goodctg80 st' \<subseteq> goodctg50 st')"
proof (induction sizes ctg items st rule: ctg_bands.induct)
  case (1 sizes ctg st)
  then show ?case by simp
next
  case (2 sizes ctg vh len rest st)
  from "2.prems" obtain rsize ratio where
    s: "sizes_get sizes vh = Inr rsize" and
    r: "py_fdiv (of_int len * 100) (of_int rsize) = Inr ratio" and
    k: "ctg_bands sizes ctg rest
          (st\<lparr>goodctg80 := (if ratio \<ge> 80 then insert ctg (goodctg80 st) else goodctg80 st),
              goodctg50 := (if ratio \<ge> 50 then insert ctg (goodctg50 st) else goodctg50 st)\<rparr>) = Inr st'"
    by (auto split: sum.splits)
  from "2.IH" [OF s r k] show ?case by (auto split: if_splits)
qed

lemma ctg_body_Inr:
  "ctg_body sizes st g = Inr st' \<Longrightarrow>
     chimers st' = chimers st + (if chimeric g then 1 else 0) \<and>
     goodref80 st' = goodref80 st \<and> goodref50 st' = goodref50 st \<and>
     (goodctg80 st \<subseteq> goodctg50 st \<longrightarrow> goodctg80 st' \<subseteq> goodctg50 st')"
proof -
  assume a: "ctg_body sizes st g = Inr st'"
  then obtain s1 where b: "ctg_bands sizes (fst g) (bps_loop (snd g)) st = Inr s1"
    and e: "st' = (if int (length (bps_loop (snd g))) > 1 then s1\<lparr>chimers := chimers s1 + 1\<rparr> else s1)"
    by (auto simp: ctg_body_def Let_def split: sum.splits)
  from ctg_bands_Inr [OF b] e show ?thesis
    by (auto simp: length_bps_loop chimeric_def)
qed

lemma ctg_loop_Inr:
  "ctg_loop sizes st gs = Inr st' \<Longrightarrow>
     chimers st' = chimers st + int (length (filter chimeric gs)) \<and>
     goodref80 st' = goodref80 st \<and> goodref50 st' = goodref50 st \<and>
     (goodctg80 st \<subseteq> goodctg50 st \<longrightarrow> goodctg80 st' \<subseteq> goodctg50 st')"
proof (induction gs arbitrary: st)
  case Nil
  then show ?case by simp
next
  case (Cons g gs)
  from Cons.prems obtain s1 where b: "ctg_body sizes st g = Inr s1"
    and l: "ctg_loop sizes s1 gs = Inr st'"
    by (auto split: sum.splits)
  from ctg_body_Inr [OF b] Cons.IH [OF l] show ?case by auto
qed

lemma ref_bands_Inr:
  "ref_bands sizes items st = Inr st' \<Longrightarrow>
     chimers st' = chimers st \<and> goodctg80 st' = goodctg80 st \<and> goodctg50 st' = goodctg50 st \<and>
     (goodref80 st \<subseteq> goodref50 st \<longrightarrow> goodref80 st' \<subseteq> goodref50 st')"
proof (induction sizes items st rule: ref_bands.induct)
  case (1 sizes st)
  then show ?case by simp
next
  case (2 sizes vh len rest st)
  from "2.prems" obtain rsize ratio where
    s: "sizes_get sizes vh = Inr rsize" and
    r: "py_fdiv (of_int len * 100) (of_int rsize) = Inr ratio" and
    k: "ref_bands sizes rest
          (st\<lparr>goodref80 := (if ratio \<ge> 80 then insert vh (goodref80 st) else goodref80 st),
              goodref50 := (if ratio \<ge> 50 then insert vh (goodref50 st) else goodref50 st)\<rparr>) = Inr st'"
    by (auto split: sum.splits)
  from "2.IH" [OF s r k] show ?case by (auto split: if_splits)
qed

lemma bench_report_state: "bench_report r k st = (out, Inr st') \<Longrightarrow> st' = st"
  by (auto simp: bench_report_def Let_def split: sum.splits)

lemma rnaseqbench_two:
  "rnaseqbench supermap w [b, r] =
     (case ctg_loop (Sizes_mapping w r) bench_init
             (Blast_iter_hits (snd (make_artifacts supermap b w)) (querysupermap b)) of
        Inl e \<Rightarrow> ([ReadSizes r] @ fst (make_artifacts supermap b w) @ [OpenBlast (querysupermap b)], Inl e)
      | Inr st \<Rightarrow>
          (case ref_pass (Sizes_mapping w r) st
                  (Blast_iter_line (snd (make_artifacts supermap b w)) (refsupermap b)) of
             Inl e \<Rightarrow> ([ReadSizes r] @ fst (make_artifacts supermap b w)
                         @ [OpenBlast (querysupermap b), OpenBlast (refsupermap b)], Inl e)
           | Inr st' \<Rightarrow>
               (case bench_report r (sizes_len (Sizes_mapping w r)) st' of
                  (out', x) \<Rightarrow> ([ReadSizes r] @ fst (make_artifacts supermap b w)
                         @ [OpenBlast (querysupermap b), OpenBlast (refsupermap b)] @ out', x))))"
  by (simp add: rnaseqbench_def Let_def split: prod.splits sum.splits)

lemma rnaseqbench_Inr:
  assumes "rnaseqbench supermap w args = (out, Inr st)"
  obtains b r s1 where "args = [b, r]"
    and "ctg_loop (Sizes_mapping w r) bench_init
           (Blast_iter_hits (snd (make_artifacts supermap b w)) (querysupermap b)) = Inr s1"
    and "ref_pass (Sizes_mapping w r) s1
           (Blast_iter_line (snd (make_artifacts supermap b w)) (refsupermap b)) = Inr st"
proof -
  from assms have "length args = 2"
    by (auto simp: rnaseqbench_def split: if_splits)
  then obtain b r where a: "args = [b, r]"
    by (cases args; cases "tl args") auto
  from assms [unfolded a rnaseqbench_two] show ?thesis
    using a that bench_report_state
    by (fastforce split: sum.splits prod.splits)
qed

lemma bench_report_no_call: "filter is_call (fst (bench_report r k st)) = []"
  by (simp add: bench_report_def Let_def split: sum.splits)

lemma make_artifacts_eq:
  "make_artifacts supermap b w =
     ((if path_exists w (querysupermap b) then [] else [CallSupermap b ''query'']) @
      (if path_exists (if path_exists w (querysupermap b) then w else supermap b ''query'' w)
            (refsupermap b)
       then [] else [CallSupermap b ''ref'']),
      (if path_exists (if path_exists w (querysupermap b) then w else supermap b ''query'' w)
            (refsupermap b)
       then (if path_exists w (querysupermap b) then w else supermap b ''query'' w)
       else supermap b ''ref'' (if path_exists w (querysupermap b) then w else supermap b ''query'' w)))"
  by (simp add: make_artifacts_def ensure_supermap_def Let_def)

lemma rnaseqbench_calls:
  "filter is_call (fst (rnaseqbench supermap w [b, r])) = fst (make_artifacts supermap b w)"
proof -
  have a: "filter is_call (fst (make_artifacts supermap b w)) = fst (make_artifacts supermap b w)"
    by (simp add: make_artifacts_eq)
  show ?thesis
    unfolding rnaseqbench_two
    using a bench_report_no_call
    by (auto split: sum.splits prod.splits simp: bench_report_no_call dest: arg_cong [where f = "\<lambda>p. filter is_call (fst p)"])
qed

lemma est_loop_empty_sizes:
  "est_loop opts [] st (g # gs) =
     ([], Inl (if this_alignlen (this_loop (snd g)) = 0 then ZeroDivisionError else KeyError))"
  by (simp add: est_body_def this_identity_eq this_coverage_def sizes_get_def Let_def)

lemma est_report_empty_sizes:
  "est_report opts [] st =
     ([Stderr ''Cutoff: {0}% ident, {1}% cov'' [I (opt_ident opts), I (opt_cov opts)],
       Stderr ''Identity: {0} mismatches, {1} gaps, {2} alignlen''
         [I (mismatches st), I (gaps st), I (alignlen st)]],
      Inl ZeroDivisionError)"
  by (simp add: est_report_def sizes_len_def py_fdiv_def)

lemma bps_loop_Nil_iff: "bps_loop hits = [] \<longleftrightarrow> hits = []"
proof (cases hits)
  case Nil
  then show ?thesis by (simp add: bps_loop_def)
next
  case (Cons a list)
  have "0 < card (subject ` set hits)"
    using Cons by (simp add: card_gt_0_iff)
  then have "0 < length (bps_loop hits)"
    by (simp add: length_bps_loop distinct_subjects_def)
  with Cons show ?thesis by auto
qed

lemma bps_loop_Nil: "bps_loop [] = []"
  by (simp add: bps_loop_def)

lemma ctg_bands_empty_sizes:
  "ctg_bands [] ctg items st = (if items = [] then Inr st else Inl KeyError)"
  by (cases items) (auto simp: sizes_get_def)

lemma ref_bands_empty_sizes:
  "ref_bands [] items st = (if items = [] then Inr st else Inl KeyError)"
  by (cases items) (auto simp: sizes_get_def)

lemma ctg_loop_empty_sizes:
  "ctg_loop [] st gs = (if \<forall>g\<in>set gs. snd g = [] then Inr st else Inl KeyError)"
  by (induction gs arbitrary: st)
     (auto simp: ctg_body_def ctg_bands_empty_sizes bps_loop_Nil_iff bps_loop_Nil Let_def)

lemma ref_pass_empty_sizes:
  "ref_pass [] st lines = (if lines = [] then Inr st else Inl KeyError)"
  by (simp add: ref_pass_def ref_bands_empty_sizes bps_loop_Nil_iff)

lemma bench_report_zero:
  "bench_report r 0 st =
     ([Stderr ''Reference set: `{0}`,  # of transcripts {1}'' [S r, I 0],
       Stderr ''A total of {0} contigs map to 80% of a reference transcript''
         [I (int (card (goodctg80 st)))],
       Stderr ''A total of {0} contigs map to 50% of a reference transcript''
         [I (int (card (goodctg50 st)))]],
      Inl ZeroDivisionError)"
  by (simp add: bench_report_def py_fdiv_def)

text \<open>The definitions that a concrete run of \<open>rnaseqbench\<close> unfolds.\<close>

lemmas bench_eval = rnaseqbench_def make_artifacts_def ensure_supermap_def querysupermap_def
  refsupermap_def fixed_world_def bare_world_def touch_supermap_def ctg_body_def bps_loop_def
  sizes_get_def py_fdiv_def ref_pass_def bench_report_def sizes_len_def bench_init_def hit_def
  ex_sizes_def ex_groups_def ex_lines_def ex_final_def Let_def

lemma ex_run: "snd (rnaseqbench touch_supermap (fixed_world ex_sizes ex_groups ex_lines) [''b'', ''r''])
   = Inr ex_final"
  by (simp add: bench_eval)

section \<open>Zero aligned length\<close>

text \<open>
  Claim C1, as the specification words it, asks that a group whose hit lengths sum to 0
  gets an identity of 0 or a sentinel and never a division fault. The code divides
  without a guard: for the group made of one record of hit length 0 the identity
  computation raises \<open>ZeroDivisionError\<close>, and so does the whole run.
\<close>

theorem zero_alignlen_identity_example:
  "(\<Sum>b\<leftarrow>[hit ''q'' ''s'' 1 10 1 10 0 0 0]. hitlen b) = 0 \<and>
   this_identity (this_loop [hit ''q'' ''s'' 1 10 1 10 0 0 0]) = Inl ZeroDivisionError \<and>
   estsummary (fixed_world [(''q'', 10)] [(''q'', [hit ''q'' ''s'' 1 10 1 10 0 0 0])] [])
       default_opts [''b'', ''f'']
     = ([ReadSizes ''f'', OpenBlast ''b''], Inl ZeroDivisionError)"
  by (simp add: estsummary_def fixed_world_def est_body_def this_identity_def py_fdiv_def
      this_loop_def this_add_def this_init_def hit_def)

text \<open>
  Claim C1, amended: for a group whose hit lengths sum to 0 the identity computation
  raises \<open>ZeroDivisionError\<close>, the loop body ends there without output, and a run of
  \<open>estsummary\<close> whose alignment stream holds such a group does not complete; for a
  group whose hit lengths do not sum to 0 the identity is
  \<open>100 - (mismatches + gaps) * 100 / aligned_length\<close>.
\<close>

theorem zero_alignlen_identity_raises:
  "((\<Sum>b\<leftarrow>blines. hitlen b) = 0 \<longrightarrow>
      this_identity (this_loop blines) = Inl ZeroDivisionError \<and>
      est_body opts sizes st (q, blines) = ([], Inl ZeroDivisionError)) \<and>
   ((\<Sum>b\<leftarrow>blines. hitlen b) \<noteq> 0 \<longrightarrow>
      this_identity (this_loop blines) =
        Inr (100 - of_int ((\<Sum>b\<leftarrow>blines. nmismatch b) + (\<Sum>b\<leftarrow>blines. ngaps b)) * 100
                     / of_int (\<Sum>b\<leftarrow>blines. hitlen b))) \<and>
   ((q, blines) \<in> set (BlastSlow_iter_hits w bf) \<and> (\<Sum>b\<leftarrow>blines. hitlen b) = 0 \<longrightarrow>
      (\<exists>out e. estsummary w opts [bf, ff] = (out, Inl e)))"
proof (intro conjI impI)
  assume z: "(\<Sum>b\<leftarrow>blines. hitlen b) = 0"
  then show "this_identity (this_loop blines) = Inl ZeroDivisionError"
    by (simp add: this_identity_eq this_loop_sums)
  from z show "est_body opts sizes st (q, blines) = ([], Inl ZeroDivisionError)"
    by (simp add: est_body_zero this_loop_sums)
next
  assume "(\<Sum>b\<leftarrow>blines. hitlen b) \<noteq> 0"
  then show "this_identity (this_loop blines) =
        Inr (100 - of_int ((\<Sum>b\<leftarrow>blines. nmismatch b) + (\<Sum>b\<leftarrow>blines. ngaps b)) * 100
                     / of_int (\<Sum>b\<leftarrow>blines. hitlen b))"
    by (simp add: this_identity_eq this_loop_sums)
next
  assume a: "(q, blines) \<in> set (BlastSlow_iter_hits w bf) \<and> (\<Sum>b\<leftarrow>blines. hitlen b) = 0"
  then have "this_alignlen (this_loop (snd (q, blines))) = 0"
    by (simp add: this_loop_sums)
  with a obtain out e where
    "est_loop opts (Sizes_mapping w ff) est_init (BlastSlow_iter_hits w bf) = (out, Inl e)"
    using est_loop_zero by blast
  then show "\<exists>out e. estsummary w opts [bf, ff] = (out, Inl e)"
    by (simp add: estsummary_two)
qed

theorem zero_alignlen_identity_raises_witness:
  "(\<Sum>b\<leftarrow>[hit ''q'' ''s'' 5 1 1 5 0 0 0]. hitlen b) = 0 \<and>
   (\<Sum>b\<leftarrow>[hit ''q'' ''s'' 1 100 1 100 100 2 1]. hitlen b) \<noteq> 0 \<and>
   (''q'', [hit ''q'' ''s'' 5 1 1 5 0 0 0])
      \<in> set (BlastSlow_iter_hits
               (fixed_world [(''q'', 5)] [(''q'', [hit ''q'' ''s'' 5 1 1 5 0 0 0])] []) ''b'') \<and>
   est_body default_opts [(''q'', 5)] est_init (''q'', [hit ''q'' ''s'' 5 1 1 5 0 0 0])
      = ([], Inl ZeroDivisionError) \<and>
   this_identity (this_loop [hit ''q'' ''s'' 1 100 1 100 100 2 1]) = Inr 97 \<and>
   (\<exists>out e. estsummary (fixed_world [(''q'', 5)] [(''q'', [hit ''q'' ''s'' 5 1 1 5 0 0 0])] [])
       default_opts [''b'', ''f''] = (out, Inl e))"
proof -
  have h1: "(\<Sum>b\<leftarrow>[hit ''q'' ''s'' 5 1 1 5 0 0 0]. hitlen b) = 0"
    by (simp add: hit_def)
  have h2: "(\<Sum>b\<leftarrow>[hit ''q'' ''s'' 1 100 1 100 100 2 1]. hitlen b) \<noteq> 0"
    by (simp add: hit_def)
  have h3: "(''q'', [hit ''q'' ''s'' 5 1 1 5 0 0 0])
      \<in> set (BlastSlow_iter_hits
               (fixed_world [(''q'', 5)] [(''q'', [hit ''q'' ''s'' 5 1 1 5 0 0 0])] []) ''b'')"
    by (simp add: fixed_world_def)
  note a = zero_alignlen_identity_raises
      [of "[hit ''q'' ''s'' 5 1 1 5 0 0 0]" default_opts "[(''q'', 5)]" est_init "''q''"
          "fixed_world [(''q'', 5)] [(''q'', [hit ''q'' ''s'' 5 1 1 5 0 0 0])] []" "''b''" "''f''"]
  note b = zero_alignlen_identity_raises
      [of "[hit ''q'' ''s'' 1 100 1 100 100 2 1]" default_opts "[]" est_init "''q''"
          "fixed_world [] [] []" "''b''" "''f''"]
  have "this_identity (this_loop [hit ''q'' ''s'' 1 100 1 100 100 2 1]) = Inr 97"
    using b h2 by (simp add: hit_def)
  then show ?thesis using a h1 h2 h3 by simp
qed

section \<open>Covered bases\<close>

text \<open>
  Claim C2 says that the covered bases of a group are the sum over its records of
  \<open>|qstart - qstop| + 1\<close>. The code adds \<open>abs(b.qstart - b.qstop + 1)\<close>, with the
  \<open>+ 1\<close> inside \<open>abs\<close>; \<open>rnaseqbench\<close> writes the same width as
  \<open>abs(x.sstop - x.sstart) + 1\<close>. For one plus-strand record with \<open>qstart = 1\<close> and
  \<open>qstop = 10\<close> the code counts 8 bases where the claim's sum is 10, and a run of
  \<open>estsummary\<close> over that record ends with \<open>covered = 8\<close>.
\<close>

theorem covered_plus_strand_two_short:
  "this_covered (this_loop [hit ''q'' ''s'' 1 10 1 10 10 0 0]) = 8 \<and>
   spec_covered [hit ''q'' ''s'' 1 10 1 10 10 0 0] = 10 \<and>
   (\<exists>out st. estsummary (fixed_world [(''q'', 10)] [(''q'', [hit ''q'' ''s'' 1 10 1 10 10 0 0])] [])
       default_opts [''b'', ''f''] = (out, Inr st) \<and> covered st = 8)"
  by (simp add: estsummary_def fixed_world_def est_body_def this_identity_def this_coverage_def
      py_fdiv_def sizes_get_def sizes_len_def sum_sizes_def est_report_def est_init_def est_enter_def
      this_loop_def this_add_def this_init_def hit_def spec_covered_def Let_def)

section \<open>Usage errors\<close>

text \<open>
  Claim C3, as the specification words it, asks for a non-zero exit status when the
  number of positional arguments is not 2. \<open>print_help()\<close> returns \<open>None\<close> and
  \<open>sys.exit(None)\<close> ends the process with status 0: with no argument at all
  \<open>estsummary\<close> exits with status 0.
\<close>

theorem usage_error_status_example:
  "length ([] :: string list) \<noteq> 2 \<and>
   run_status (estsummary (fixed_world [] [] []) default_opts []) = 0"
  by (simp add: estsummary_def run_status_def print_help_def sys_exit_def)

text \<open>
  Claim C3, amended: with a number of positional arguments other than 2, \<open>estsummary\<close>
  and \<open>rnaseqbench\<close> print the usage help and exit through \<open>sys.exit(None)\<close>, that is
  with status 0, and nothing else happens: no size table is read, no alignment file
  is opened, the filter is not called and nothing is aggregated.
\<close>

theorem usage_error_exits_before_work:
  "length args \<noteq> 2 \<Longrightarrow>
     estsummary w opts args = ([PrintHelp], Inl (SystemExit None)) \<and>
     rnaseqbench supermap w args = ([PrintHelp], Inl (SystemExit None)) \<and>
     run_status (estsummary w opts args) = 0 \<and>
     run_status (rnaseqbench supermap w args) = 0"
  by (simp add: estsummary_def rnaseqbench_def run_status_def print_help_def sys_exit_def)

theorem usage_error_exits_before_work_witness:
  "length [''only''] \<noteq> 2 \<and>
   estsummary (fixed_world [] [] []) default_opts [''only''] = ([PrintHelp], Inl (SystemExit None)) \<and>
   rnaseqbench (\<lambda>b d w. w) (fixed_world [] [] []) [''only''] = ([PrintHelp], Inl (SystemExit None)) \<and>
   run_status (estsummary (fixed_world [] [] []) default_opts [''only'']) = 0 \<and>
   run_status (rnaseqbench (\<lambda>b d w. w) (fixed_world [] [] []) [''only'']) = 0"
proof -
  have h: "length [''only''] \<noteq> 2" by simp
  show ?thesis
    using h usage_error_exits_before_work [OF h, of "fixed_world [] [] []" default_opts "\<lambda>b d w. w"]
    by (simp add: run_status_def)
qed

section \<open>Validity of a query\<close>

text \<open>
  Claim C6 says that a query with at least one alignment is counted as valid exactly
  when its identity percentage is strictly above the identity threshold (95 by
  default) and its coverage percentage strictly above the coverage threshold (90 by
  default), the coverage percentage being covered bases times 100 over the total
  length. The comparison of line 90 is the strict one, but the covered bases it is
  fed are those of line 80, two short for every plus-strand record. A query of 20
  bases with one perfect hit over positions 1 to 20 has identity 100 and coverage
  100 by the specification, so it is valid; the code computes 18 covered bases, a
  coverage of exactly 90, and does not count it: the run ends with
  \<open>mapped_count = 1\<close> and \<open>valid_count = 0\<close>. All the numbers of this run are
  integers that a double holds exactly.
\<close>

theorem full_length_plus_strand_hit_not_valid:
  "opt_ident default_opts = 95 \<and> opt_cov default_opts = 90 \<and>
   spec_identity [hit ''q'' ''s'' 1 20 1 20 20 0 0] = 100 \<and>
   spec_coverage 20 [hit ''q'' ''s'' 1 20 1 20 20 0 0] = 100 \<and>
   spec_valid default_opts 20 [hit ''q'' ''s'' 1 20 1 20 20 0 0] \<and>
   this_identity (this_loop [hit ''q'' ''s'' 1 20 1 20 20 0 0]) = Inr 100 \<and>
   this_coverage [(''q'', 20)] ''q'' (this_loop [hit ''q'' ''s'' 1 20 1 20 20 0 0]) = Inr 90 \<and>
   est_body default_opts [(''q'', 20)] est_init (''q'', [hit ''q'' ''s'' 1 20 1 20 20 0 0])
     = ([], Inr \<lparr>covered = 18, mismatches = 0, gaps = 0, alignlen = 20,
                  queries = {''q''}, valid_count = 0, mapped_count = 1\<rparr>) \<and>
   (\<exists>out st. estsummary (fixed_world [(''q'', 20)] [(''q'', [hit ''q'' ''s'' 1 20 1 20 20 0 0])] [])
                 default_opts [''b'', ''f''] = (out, Inr st) \<and>
              mapped_count st = 1 \<and> valid_count st = 0)"
proof (intro conjI)
  show "opt_ident default_opts = 95" "opt_cov default_opts = 90"
    by (simp_all add: default_opts_def)
  show "spec_identity [hit ''q'' ''s'' 1 20 1 20 20 0 0] = 100"
    by (simp add: spec_identity_def hit_def)
  show "spec_coverage 20 [hit ''q'' ''s'' 1 20 1 20 20 0 0] = 100"
    by (simp add: spec_coverage_def spec_covered_def hit_def)
  show "spec_valid default_opts 20 [hit ''q'' ''s'' 1 20 1 20 20 0 0]"
    by (simp add: spec_valid_def spec_identity_def spec_coverage_def spec_covered_def
        default_opts_def hit_def)
  show "this_identity (this_loop [hit ''q'' ''s'' 1 20 1 20 20 0 0]) = Inr 100"
    by (simp add: est_eval)
  show "this_coverage [(''q'', 20)] ''q'' (this_loop [hit ''q'' ''s'' 1 20 1 20 20 0 0]) = Inr 90"
    by (simp add: est_eval)
  show "est_body default_opts [(''q'', 20)] est_init (''q'', [hit ''q'' ''s'' 1 20 1 20 20 0 0])
     = ([], Inr \<lparr>covered = 18, mismatches = 0, gaps = 0, alignlen = 20,
                  queries = {''q''}, valid_count = 0, mapped_count = 1\<rparr>)"
    by (simp add: est_eval)
  show "\<exists>out st. estsummary (fixed_world [(''q'', 20)] [(''q'', [hit ''q'' ''s'' 1 20 1 20 20 0 0])] [])
                 default_opts [''b'', ''f''] = (out, Inr st) \<and>
              mapped_count st = 1 \<and> valid_count st = 0"
    by (simp add: est_eval)
qed

section \<open>Bounds on the counts\<close>

text \<open>
  Claim C7: \<open>valid_count \<le> mapped_count\<close> holds throughout the aggregation loop and
  at the end of every run that completes, and so does
  \<open>mapped_count \<le> len(sizes)\<close> when no query id is yielded twice and every query id
  yielded is in the size table. The points of the loop are the state after \<open>n\<close>
  passes, for every \<open>n\<close>, and the state inside the next pass, right after
  \<open>mapped_count += 1\<close>.
\<close>

theorem count_bounds_through_loop:
  "(est_loop opts (Sizes_mapping w f) est_init (take n (BlastSlow_iter_hits w b)) = (out, Inr st) \<longrightarrow>
      valid_count st \<le> mapped_count st \<and>
      (n < length (BlastSlow_iter_hits w b) \<longrightarrow>
         valid_count (est_enter st (fst (BlastSlow_iter_hits w b ! n)))
           \<le> mapped_count (est_enter st (fst (BlastSlow_iter_hits w b ! n)))) \<and>
      (known_once (Sizes_mapping w f) (BlastSlow_iter_hits w b) \<longrightarrow>
         mapped_count st \<le> sizes_len (Sizes_mapping w f) \<and>
         (n < length (BlastSlow_iter_hits w b) \<longrightarrow>
            mapped_count (est_enter st (fst (BlastSlow_iter_hits w b ! n)))
              \<le> sizes_len (Sizes_mapping w f)))) \<and>
   (estsummary w opts [b, f] = (out', Inr st') \<longrightarrow>
      valid_count st' \<le> mapped_count st' \<and>
      (known_once (Sizes_mapping w f) (BlastSlow_iter_hits w b) \<longrightarrow>
         mapped_count st' \<le> sizes_len (Sizes_mapping w f)))"
proof -
  define groups where "groups = BlastSlow_iter_hits w b"
  define sizes where "sizes = Sizes_mapping w f"
  have bound: "known_once sizes groups \<Longrightarrow> int (length groups) \<le> sizes_len sizes"
    by (rule length_le_sizes_len)
  have part1: "valid_count st \<le> mapped_count st \<and>
      (n < length groups \<longrightarrow>
         valid_count (est_enter st (fst (groups ! n))) \<le> mapped_count (est_enter st (fst (groups ! n)))) \<and>
      (known_once sizes groups \<longrightarrow>
         mapped_count st \<le> sizes_len sizes \<and>
         (n < length groups \<longrightarrow> mapped_count (est_enter st (fst (groups ! n))) \<le> sizes_len sizes))"
    if run: "est_loop opts sizes est_init (take n groups) = (out, Inr st)"
  proof -
    from est_loop_Inr [OF run]
    have m: "mapped_count st = int (min (length groups) n)"
      and v: "valid_count st = int (length (filter (est_valid opts sizes) (take n groups)))"
      by (simp_all add: est_init_def)
    have "length (filter (est_valid opts sizes) (take n groups)) \<le> length (take n groups)"
      by (rule length_filter_le)
    with m v have le: "valid_count st \<le> mapped_count st" by simp
    have e: "mapped_count (est_enter st q) = mapped_count st + 1"
      "valid_count (est_enter st q) = valid_count st" for q
      by (simp_all add: est_enter_def)
    show ?thesis using le m e bound by auto
  qed
  have part2: "valid_count st' \<le> mapped_count st' \<and>
      (known_once sizes groups \<longrightarrow> mapped_count st' \<le> sizes_len sizes)"
    if run: "estsummary w opts [b, f] = (out', Inr st')"
  proof -
    from estsummary_Inr [OF run] obtain out1 where
      l: "est_loop opts sizes est_init groups = (out1, Inr st')"
      by (auto simp: groups_def sizes_def)
    from est_loop_Inr [OF l]
    have m: "mapped_count st' = int (length groups)"
      and v: "valid_count st' = int (length (filter (est_valid opts sizes) groups))"
      by (simp_all add: est_init_def)
    have "length (filter (est_valid opts sizes) groups) \<le> length groups"
      by (rule length_filter_le)
    with m v bound show ?thesis by auto
  qed
  from part1 part2 show ?thesis
    unfolding groups_def sizes_def by blast
qed


theorem count_bounds_through_loop_witness:
  "est_loop default_opts [(''q'', 100), (''r'', 50)] est_init
       (take 0 [(''q'', [hit ''q'' ''s'' 100 1 1 100 100 4 0])]) = ([], Inr est_init) \<and>
   (0::nat) < length [(''q'', [hit ''q'' ''s'' 100 1 1 100 100 4 0])] \<and>
   known_once [(''q'', 100), (''r'', 50)] [(''q'', [hit ''q'' ''s'' 100 1 1 100 100 4 0])] \<and>
   valid_count est_init \<le> mapped_count est_init \<and>
   mapped_count (est_enter est_init ''q'') = 1 \<and>
   valid_count (est_enter est_init ''q'') = 0 \<and>
   sizes_len [(''q'', 100), (''r'', 50)] = 2 \<and>
   (\<exists>out st. estsummary (fixed_world [(''q'', 100), (''r'', 50)]
                 [(''q'', [hit ''q'' ''s'' 100 1 1 100 100 4 0])] []) default_opts [''b'', ''f'']
                = (out, Inr st) \<and>
              valid_count st \<le> mapped_count st \<and> mapped_count st \<le> 2)"
proof -
  let ?g = "[(''q'', [hit ''q'' ''s'' 100 1 1 100 100 4 0])]"
  let ?s = "[(''q'', 100), (''r'', 50 :: int)]"
  let ?w = "fixed_world ?s ?g []"
  have a: "est_loop default_opts (Sizes_mapping ?w ''f'') est_init
             (take 0 (BlastSlow_iter_hits ?w ''b'')) = ([], Inr est_init)"
    by simp
  have n: "0 < length (BlastSlow_iter_hits ?w ''b'')"
    by (simp add: fixed_world_def)
  have k: "known_once (Sizes_mapping ?w ''f'') (BlastSlow_iter_hits ?w ''b'')"
    by (simp add: known_once_def fixed_world_def)
  have c: "estsummary ?w default_opts [''b'', ''f'']
     = ([ReadSizes ''f'', OpenBlast ''b'',
         Stderr ''Cutoff: {0}% ident, {1}% cov'' [I 95, I 90],
         Stderr ''Identity: {0} mismatches, {1} gaps, {2} alignlen'' [I 4, I 0, I 100],
         Stderr ''Total mapped: {0} ({1:.1f}% of {2})'' [I 1, F 50, I 2],
         Stderr ''Total valid: {0} ({1:.1f}% of {2})'' [I 1, F 50, I 2],
         Stderr ''Overal ident% = {0:.1f}%'' [F 96],
         Stderr ''Coverage: {0} covered, {1} total'' [I 100, I 100],
         Stderr ''Coverage = {0:.1f}%'' [F 100]],
        Inr \<lparr>covered = 100, mismatches = 4, gaps = 0, alignlen = 100,
              queries = {''q''}, valid_count = 1, mapped_count = 1\<rparr>)"
    by (simp add: est_eval)
  note t1 = count_bounds_through_loop [where opts = default_opts and w = ?w and b = "''b''" and f = "''f''" and n = 0,
      THEN conjunct1, rule_format, OF a]
  note t2 = count_bounds_through_loop [where opts = default_opts and w = ?w and b = "''b''" and f = "''f''",
      THEN conjunct2, rule_format, OF c]
  have l: "sizes_len ?s = 2" by (simp add: sizes_len_def)
  from t1 n k have "valid_count est_init \<le> mapped_count est_init \<and>
     mapped_count (est_enter est_init ''q'') = 1 \<and> valid_count (est_enter est_init ''q'') = 0"
    by (simp add: fixed_world_def est_enter_def est_init_def)
  moreover from t2 k l c have "\<exists>out st. estsummary ?w default_opts [''b'', ''f''] = (out, Inr st) \<and>
              valid_count st \<le> mapped_count st \<and> mapped_count st \<le> 2"
    by (simp add: fixed_world_def)
  moreover have "est_loop default_opts ?s est_init (take 0 ?g) = ([], Inr est_init)" by simp
  moreover have "known_once ?s ?g" by (simp add: known_once_def)
  ultimately show ?thesis using l by simp
qed

section \<open>Chimeras\<close>

text \<open>
  Claim C4: in \<open>rnaseqbench\<close> a contig is counted as a chimera exactly when the set
  of distinct subject ids among its retained records has at least two members; a
  contig whose records all share one subject id is never counted, however many
  fragments it has. One pass of the loop body that does not raise adds 1 to
  \<open>chimers\<close> in the first case and leaves it alone otherwise, and a run that
  completes ends with \<open>chimers\<close> equal to the number of groups of the
  query-filtered artifact that have at least two distinct subjects.
\<close>

theorem chimera_iff_two_subjects:
  "(ctg_body sizes st (ctg, hits) = Inr st' \<longrightarrow>
      chimers st' = (if 2 \<le> distinct_subjects hits then chimers st + 1 else chimers st)) \<and>
   (rnaseqbench supermap w [b, r] = (out, Inr stf) \<longrightarrow>
      chimers stf = int (length (filter chimeric
          (Blast_iter_hits (snd (make_artifacts supermap b w)) (querysupermap b)))))"
proof (intro conjI impI)
  assume "ctg_body sizes st (ctg, hits) = Inr st'"
  from ctg_body_Inr [OF this]
  show "chimers st' = (if 2 \<le> distinct_subjects hits then chimers st + 1 else chimers st)"
    by (simp add: chimeric_def)
next
  assume "rnaseqbench supermap w [b, r] = (out, Inr stf)"
  then obtain b' r' s1 where a: "[b, r] = [b', r']" and
    c: "ctg_loop (Sizes_mapping w r') bench_init
           (Blast_iter_hits (snd (make_artifacts supermap b' w)) (querysupermap b')) = Inr s1"
    and p: "ref_pass (Sizes_mapping w r') s1
           (Blast_iter_line (snd (make_artifacts supermap b' w)) (refsupermap b')) = Inr stf"
    by (rule rnaseqbench_Inr)
  from ctg_loop_Inr [OF c] ref_bands_Inr [OF p [unfolded ref_pass_def]] a
  show "chimers stf = int (length (filter chimeric
          (Blast_iter_hits (snd (make_artifacts supermap b w)) (querysupermap b))))"
    by (simp add: bench_init_def)
qed

theorem chimera_iff_two_subjects_witness:
  "ctg_body ex_sizes bench_init (ex_groups ! 0)
     = Inr \<lparr>chimers = 1, goodctg80 = {''ctg1''}, goodctg50 = {''ctg1''},
            goodref80 = {}, goodref50 = {}\<rparr> \<and>
   distinct_subjects (snd (ex_groups ! 0)) = 2 \<and>
   ctg_body ex_sizes bench_init (ex_groups ! 1) = Inr bench_init \<and>
   distinct_subjects (snd (ex_groups ! 1)) = 1 \<and>
   snd (rnaseqbench touch_supermap (fixed_world ex_sizes ex_groups ex_lines) [''b'', ''r''])
     = Inr ex_final \<and>
   chimers ex_final = 1 \<and>
   length (filter chimeric ex_groups) = 1"
proof -
  let ?g0 = "[hit ''ctg1'' ''geneA'' 1 850 1 850 850 0 0, hit ''ctg1'' ''geneB'' 900 900 7 7 1 0 0]"
  let ?g1 = "[hit ''ctg2'' ''geneB'' 1 100 1 100 100 0 0, hit ''ctg2'' ''geneB'' 101 200 400 301 100 0 0]"
  have a: "ctg_body ex_sizes bench_init (''ctg1'', ?g0)
     = Inr \<lparr>chimers = 1, goodctg80 = {''ctg1''}, goodctg50 = {''ctg1''},
            goodref80 = {}, goodref50 = {}\<rparr>"
    by (simp add: bench_eval)
  have b: "ctg_body ex_sizes bench_init (''ctg2'', ?g1) = Inr bench_init"
    by (simp add: bench_eval)
  obtain out where c:
    "rnaseqbench touch_supermap (fixed_world ex_sizes ex_groups ex_lines) [''b'', ''r'']
       = (out, Inr ex_final)"
    using ex_run by (cases "rnaseqbench touch_supermap (fixed_world ex_sizes ex_groups ex_lines) [''b'', ''r'']") auto
  note ta = chimera_iff_two_subjects [THEN conjunct1, rule_format, OF a]
  note tb = chimera_iff_two_subjects [THEN conjunct1, rule_format, OF b]
  note tc = chimera_iff_two_subjects [THEN conjunct2, rule_format, OF c]
  have d0: "distinct_subjects ?g0 = 2" by (simp add: distinct_subjects_def hit_def)
  have d1: "distinct_subjects ?g1 = 1" by (simp add: distinct_subjects_def hit_def)
  have m: "snd (make_artifacts touch_supermap ''b'' (fixed_world ex_sizes ex_groups ex_lines))
     = fixed_world ex_sizes ex_groups ex_lines"
    by (simp add: make_artifacts_def ensure_supermap_def fixed_world_def)
  from tc have "length (filter chimeric ex_groups) = 1"
    by (simp add: m) (simp add: fixed_world_def ex_final_def)
  with a b d0 d1 ta tb ex_run show ?thesis
    by (simp add: ex_groups_def ex_final_def)
qed

text \<open>
  Claim C9: the chimera count looks at no covered length and at no band. A contig
  with records on two distinct subjects is counted whatever the positions of the
  records and whatever the size table says; the contig \<open>ex_thin\<close>, which covers
  100 of the 1000 bases of one gene and a single base of a second one, lands in
  neither band and is counted as chimeric.
\<close>

theorem chimera_no_length_threshold:
  "(x \<in> set hits \<and> y \<in> set hits \<and> subject x \<noteq> subject y \<and>
      ctg_body sizes st (ctg, hits) = Inr st' \<longrightarrow> chimers st' = chimers st + 1) \<and>
   bps_loop (snd ex_thin) = [(''geneA'', 100), (''geneB'', 1)] \<and>
   ctg_body ex_sizes bench_init ex_thin =
     Inr \<lparr>chimers = 1, goodctg80 = {}, goodctg50 = {}, goodref80 = {}, goodref50 = {}\<rparr>"
proof (intro conjI impI)
  assume a: "x \<in> set hits \<and> y \<in> set hits \<and> subject x \<noteq> subject y \<and>
      ctg_body sizes st (ctg, hits) = Inr st'"
  then have "{subject x, subject y} \<subseteq> subject ` set hits" by auto
  then have "card {subject x, subject y} \<le> card (subject ` set hits)"
    by (intro card_mono) simp_all
  with a have "2 \<le> distinct_subjects hits" by (simp add: distinct_subjects_def)
  moreover from a have "ctg_body sizes st (ctg, hits) = Inr st'" by simp
  ultimately show "chimers st' = chimers st + 1"
    using ctg_body_Inr [of sizes st "(ctg, hits)" st'] by (simp add: chimeric_def)
next
  show "bps_loop (snd ex_thin) = [(''geneA'', 100), (''geneB'', 1)]"
    by (simp add: ex_thin_def bps_loop_def hit_def)
  show "ctg_body ex_sizes bench_init ex_thin =
     Inr \<lparr>chimers = 1, goodctg80 = {}, goodctg50 = {}, goodref80 = {}, goodref50 = {}\<rparr>"
    by (simp add: ex_thin_def bench_eval)
qed

theorem chimera_no_length_threshold_witness:
  "hit ''ctg1'' ''geneA'' 1 100 1 100 100 0 0 \<in> set (snd ex_thin) \<and>
   hit ''ctg1'' ''geneB'' 900 900 7 7 1 0 0 \<in> set (snd ex_thin) \<and>
   subject (hit ''ctg1'' ''geneA'' 1 100 1 100 100 0 0)
     \<noteq> subject (hit ''ctg1'' ''geneB'' 900 900 7 7 1 0 0) \<and>
   ctg_body ex_sizes bench_init (''ctg1'', snd ex_thin) =
     Inr \<lparr>chimers = 1, goodctg80 = {}, goodctg50 = {}, goodref80 = {}, goodref50 = {}\<rparr> \<and>
   chimers \<lparr>chimers = 1, goodctg80 = {}, goodctg50 = {}, goodref80 = {}, goodref50 = {}\<rparr>
     = chimers bench_init + 1"
proof -
  let ?x = "hit ''ctg1'' ''geneA'' 1 100 1 100 100 0 0"
  let ?y = "hit ''ctg1'' ''geneB'' 900 900 7 7 1 0 0"
  let ?st = "\<lparr>chimers = 1, goodctg80 = {}, goodctg50 = {}, goodref80 = {}, goodref50 = {}\<rparr>"
  have h1: "?x \<in> set (snd ex_thin)" by (simp add: ex_thin_def)
  have h2: "?y \<in> set (snd ex_thin)" by (simp add: ex_thin_def)
  have h3: "subject ?x \<noteq> subject ?y" by (simp add: hit_def)
  have h4: "ctg_body ex_sizes bench_init (''ctg1'', snd ex_thin) = Inr ?st"
    by (simp add: ex_thin_def bench_eval)
  from chimera_no_length_threshold [where x = ?x and y = ?y and hits = "snd ex_thin" and sizes = ex_sizes
      and st = bench_init and ctg = "''ctg1''" and st' = ?st, THEN conjunct1] h1 h2 h3 h4
  have "chimers ?st = chimers bench_init + 1" by blast
  with h1 h2 h3 h4 show ?thesis by blast
qed


section \<open>The cached artifacts\<close>

text \<open>
  Claim C5: \<open>rnaseqbench\<close> derives two artifact paths, the alignment file path
  followed by \<open>.query.supermap\<close> and by \<open>.ref.supermap\<close>, and calls the filter for a
  direction exactly when the artifact of that direction is not on disk at the moment
  of its check (the check for \<open>ref\<close> comes after the call for \<open>query\<close>, if there is
  one; when that call leaves the existence of the \<open>ref\<close> artifact as it was, both
  checks are about the disk as the run found it). When both artifacts exist the
  filter is not called and the two passes read the artifacts that were there.
\<close>

theorem supermap_called_iff_missing:
  "querysupermap b = b @ ''.query.supermap'' \<and> refsupermap b = b @ ''.ref.supermap'' \<and>
   filter is_call (fst (rnaseqbench supermap w [b, r])) =
     (if path_exists w (querysupermap b) then [] else [CallSupermap b ''query'']) @
     (if path_exists (if path_exists w (querysupermap b) then w else supermap b ''query'' w)
           (refsupermap b)
      then [] else [CallSupermap b ''ref'']) \<and>
   (path_exists (supermap b ''query'' w) (refsupermap b) = path_exists w (refsupermap b) \<longrightarrow>
      filter is_call (fst (rnaseqbench supermap w [b, r])) =
        (if path_exists w (querysupermap b) then [] else [CallSupermap b ''query'']) @
        (if path_exists w (refsupermap b) then [] else [CallSupermap b ''ref''])) \<and>
   (path_exists w (querysupermap b) \<and> path_exists w (refsupermap b) \<longrightarrow>
      filter is_call (fst (rnaseqbench supermap w [b, r])) = [] \<and>
      rnaseqbench supermap w [b, r] =
        (case ctg_loop (Sizes_mapping w r) bench_init (Blast_iter_hits w (querysupermap b)) of
           Inl e \<Rightarrow> ([ReadSizes r, OpenBlast (querysupermap b)], Inl e)
         | Inr st \<Rightarrow>
             (case ref_pass (Sizes_mapping w r) st (Blast_iter_line w (refsupermap b)) of
                Inl e \<Rightarrow> ([ReadSizes r, OpenBlast (querysupermap b), OpenBlast (refsupermap b)], Inl e)
              | Inr st' \<Rightarrow>
                  (case bench_report r (sizes_len (Sizes_mapping w r)) st' of
                     (out', x) \<Rightarrow>
                       ([ReadSizes r, OpenBlast (querysupermap b), OpenBlast (refsupermap b)] @ out',
                        x)))))"
proof (intro conjI impI)
  show "querysupermap b = b @ ''.query.supermap''" by (simp add: querysupermap_def)
  show "refsupermap b = b @ ''.ref.supermap''" by (simp add: refsupermap_def)
  show "filter is_call (fst (rnaseqbench supermap w [b, r])) =
     (if path_exists w (querysupermap b) then [] else [CallSupermap b ''query'']) @
     (if path_exists (if path_exists w (querysupermap b) then w else supermap b ''query'' w)
           (refsupermap b)
      then [] else [CallSupermap b ''ref''])"
    by (simp add: rnaseqbench_calls make_artifacts_eq)
next
  assume "path_exists (supermap b ''query'' w) (refsupermap b) = path_exists w (refsupermap b)"
  then show "filter is_call (fst (rnaseqbench supermap w [b, r])) =
        (if path_exists w (querysupermap b) then [] else [CallSupermap b ''query'']) @
        (if path_exists w (refsupermap b) then [] else [CallSupermap b ''ref''])"
    by (simp add: rnaseqbench_calls make_artifacts_eq)
next
  assume a: "path_exists w (querysupermap b) \<and> path_exists w (refsupermap b)"
  then have m: "make_artifacts supermap b w = ([], w)"
    by (simp add: make_artifacts_eq)
  show "filter is_call (fst (rnaseqbench supermap w [b, r])) = []"
    by (simp add: rnaseqbench_calls m)
  show "rnaseqbench supermap w [b, r] =
        (case ctg_loop (Sizes_mapping w r) bench_init (Blast_iter_hits w (querysupermap b)) of
           Inl e \<Rightarrow> ([ReadSizes r, OpenBlast (querysupermap b)], Inl e)
         | Inr st \<Rightarrow>
             (case ref_pass (Sizes_mapping w r) st (Blast_iter_line w (refsupermap b)) of
                Inl e \<Rightarrow> ([ReadSizes r, OpenBlast (querysupermap b), OpenBlast (refsupermap b)], Inl e)
              | Inr st' \<Rightarrow>
                  (case bench_report r (sizes_len (Sizes_mapping w r)) st' of
                     (out', x) \<Rightarrow>
                       ([ReadSizes r, OpenBlast (querysupermap b), OpenBlast (refsupermap b)] @ out',
                        x))))"
    by (simp add: rnaseqbench_two m split: sum.splits prod.splits)
qed

theorem supermap_called_iff_missing_witness:
  "path_exists (fixed_world ex_sizes ex_groups ex_lines) (querysupermap ''b'') \<and>
   path_exists (fixed_world ex_sizes ex_groups ex_lines) (refsupermap ''b'') \<and>
   filter is_call (fst (rnaseqbench touch_supermap (fixed_world ex_sizes ex_groups ex_lines) [''b'', ''r'']))
     = [] \<and>
   snd (rnaseqbench touch_supermap (fixed_world ex_sizes ex_groups ex_lines) [''b'', ''r''])
     = Inr ex_final \<and>
   path_exists (touch_supermap ''b'' ''query'' (bare_world ex_sizes ex_groups ex_lines)) (refsupermap ''b'')
     = path_exists (bare_world ex_sizes ex_groups ex_lines) (refsupermap ''b'') \<and>
   \<not> path_exists (bare_world ex_sizes ex_groups ex_lines) (querysupermap ''b'') \<and>
   \<not> path_exists (bare_world ex_sizes ex_groups ex_lines) (refsupermap ''b'') \<and>
   filter is_call (fst (rnaseqbench touch_supermap (bare_world ex_sizes ex_groups ex_lines) [''b'', ''r'']))
     = [CallSupermap ''b'' ''query'', CallSupermap ''b'' ''ref'']"
proof -
  let ?w = "fixed_world ex_sizes ex_groups ex_lines"
  let ?v = "bare_world ex_sizes ex_groups ex_lines"
  have e: "path_exists ?w (querysupermap ''b'') \<and> path_exists ?w (refsupermap ''b'')"
    by (simp add: fixed_world_def)
  have f: "path_exists (touch_supermap ''b'' ''query'' ?v) (refsupermap ''b'')
     = path_exists ?v (refsupermap ''b'')"
    by (simp add: touch_supermap_def bare_world_def fixed_world_def refsupermap_def)
  have n: "\<not> path_exists ?v (querysupermap ''b'')" "\<not> path_exists ?v (refsupermap ''b'')"
    by (simp_all add: bare_world_def fixed_world_def)
  note t = supermap_called_iff_missing [where supermap = touch_supermap and w = ?w and b = "''b''" and r = "''r''"]
  note u = supermap_called_iff_missing [where supermap = touch_supermap and w = ?v and b = "''b''" and r = "''r''"]
  from t e have 1: "filter is_call (fst (rnaseqbench touch_supermap ?w [''b'', ''r''])) = []"
    by blast
  from u f have "filter is_call (fst (rnaseqbench touch_supermap ?v [''b'', ''r''])) =
        (if path_exists ?v (querysupermap ''b'') then [] else [CallSupermap ''b'' ''query'']) @
        (if path_exists ?v (refsupermap ''b'') then [] else [CallSupermap ''b'' ''ref''])"
    by blast
  with n have 2: "filter is_call (fst (rnaseqbench touch_supermap ?v [''b'', ''r'']))
     = [CallSupermap ''b'' ''query'', CallSupermap ''b'' ''ref'']"
    by simp
  from e f n 1 2 ex_run show ?thesis by simp
qed


section \<open>The two bands\<close>

text \<open>
  Claim C8: in every run of \<open>rnaseqbench\<close> that completes, the contigs of the 80
  percent band are among those of the 50 percent band, and the reference sequences
  of the 80 percent band are among those of the 50 percent band.
\<close>

theorem band80_subset_band50:
  "rnaseqbench supermap w args = (out, Inr st) \<Longrightarrow>
     goodctg80 st \<subseteq> goodctg50 st \<and> goodref80 st \<subseteq> goodref50 st"
proof -
  assume "rnaseqbench supermap w args = (out, Inr st)"
  then obtain b r s1 where
    c: "ctg_loop (Sizes_mapping w r) bench_init
           (Blast_iter_hits (snd (make_artifacts supermap b w)) (querysupermap b)) = Inr s1"
    and p: "ref_pass (Sizes_mapping w r) s1
           (Blast_iter_line (snd (make_artifacts supermap b w)) (refsupermap b)) = Inr st"
    by (rule rnaseqbench_Inr)
  from ctg_loop_Inr [OF c] have 1: "goodctg80 s1 \<subseteq> goodctg50 s1" "goodref80 s1 \<subseteq> goodref50 s1"
    by (simp_all add: bench_init_def)
  from ref_bands_Inr [OF p [unfolded ref_pass_def]] 1 show ?thesis by simp
qed

theorem band80_subset_band50_witness:
  "snd (rnaseqbench touch_supermap (fixed_world ex_sizes ex_groups ex_lines) [''b'', ''r''])
     = Inr ex_final \<and>
   goodctg80 ex_final \<subseteq> goodctg50 ex_final \<and> goodref80 ex_final \<subseteq> goodref50 ex_final \<and>
   goodref80 ex_final \<noteq> goodref50 ex_final"
proof -
  obtain out where
    "rnaseqbench touch_supermap (fixed_world ex_sizes ex_groups ex_lines) [''b'', ''r'']
       = (out, Inr ex_final)"
    using ex_run by (cases "rnaseqbench touch_supermap (fixed_world ex_sizes ex_groups ex_lines) [''b'', ''r'']") auto
  from band80_subset_band50 [OF this] ex_run show ?thesis
    by (simp add: ex_final_def)
qed


section \<open>An empty size table\<close>

text \<open>
  Claim C10, as worded, says that with an empty size table \<open>estsummary\<close> fails with
  a division by zero in the percentage summary. With an empty size table and one
  group of hit length 10 the run fails before, in the loop, with the \<open>KeyError\<close> of
  \<open>sizes[query]\<close>.
\<close>

theorem empty_sizes_keyerror_example:
  "Sizes_mapping (fixed_world [] [(''q'', [hit ''q'' ''s'' 1 10 1 10 10 0 0])] []) ''f'' = [] \<and>
   estsummary (fixed_world [] [(''q'', [hit ''q'' ''s'' 1 10 1 10 10 0 0])] []) default_opts [''b'', ''f'']
     = ([ReadSizes ''f'', OpenBlast ''b''], Inl KeyError)"
  by (simp add: est_eval)

text \<open>
  Claim C10, amended: with an empty size table neither function reports counts.
  \<open>estsummary\<close> fails with \<open>ZeroDivisionError\<close> at the percentage of the "Total
  mapped" line when the alignment stream yields no group, and otherwise in the loop,
  on the first group, with \<open>ZeroDivisionError\<close> at the identity when its hit lengths
  sum to 0 and with \<open>KeyError\<close> at the size lookup when they do not. \<open>rnaseqbench\<close>
  fails with \<open>ZeroDivisionError\<close> at the percentage of the first reference-coverage
  line when neither artifact yields a record, and otherwise with \<open>KeyError\<close> at the
  size lookup of the first pass that has a record.
\<close>

theorem empty_sizes_always_fails:
  "(Sizes_mapping w f = [] \<longrightarrow>
      (BlastSlow_iter_hits w b = [] \<longrightarrow>
         estsummary w opts [b, f] =
           ([ReadSizes f, OpenBlast b,
             Stderr ''Cutoff: {0}% ident, {1}% cov'' [I (opt_ident opts), I (opt_cov opts)],
             Stderr ''Identity: {0} mismatches, {1} gaps, {2} alignlen'' [I 0, I 0, I 0]],
            Inl ZeroDivisionError)) \<and>
      (BlastSlow_iter_hits w b \<noteq> [] \<longrightarrow>
         estsummary w opts [b, f] =
           ([ReadSizes f, OpenBlast b],
            Inl (if (\<Sum>x\<leftarrow>snd (hd (BlastSlow_iter_hits w b)). hitlen x) = 0
                 then ZeroDivisionError else KeyError)))) \<and>
   (Sizes_mapping w f = [] \<longrightarrow>
      ((\<exists>g\<in>set (Blast_iter_hits (snd (make_artifacts supermap b w)) (querysupermap b)). snd g \<noteq> []) \<longrightarrow>
         rnaseqbench supermap w [b, f] =
           ([ReadSizes f] @ fst (make_artifacts supermap b w) @ [OpenBlast (querysupermap b)],
            Inl KeyError)) \<and>
      ((\<forall>g\<in>set (Blast_iter_hits (snd (make_artifacts supermap b w)) (querysupermap b)). snd g = []) \<and>
       Blast_iter_line (snd (make_artifacts supermap b w)) (refsupermap b) \<noteq> [] \<longrightarrow>
         rnaseqbench supermap w [b, f] =
           ([ReadSizes f] @ fst (make_artifacts supermap b w)
              @ [OpenBlast (querysupermap b), OpenBlast (refsupermap b)],
            Inl KeyError)) \<and>
      ((\<forall>g\<in>set (Blast_iter_hits (snd (make_artifacts supermap b w)) (querysupermap b)). snd g = []) \<and>
       Blast_iter_line (snd (make_artifacts supermap b w)) (refsupermap b) = [] \<longrightarrow>
         rnaseqbench supermap w [b, f] =
           ([ReadSizes f] @ fst (make_artifacts supermap b w)
              @ [OpenBlast (querysupermap b), OpenBlast (refsupermap b),
                 Stderr ''Reference set: `{0}`,  # of transcripts {1}'' [S f, I 0],
                 Stderr ''A total of {0} contigs map to 80% of a reference transcript'' [I 0],
                 Stderr ''A total of {0} contigs map to 50% of a reference transcript'' [I 0]],
            Inl ZeroDivisionError)))"
proof (intro conjI impI)
  assume "Sizes_mapping w f = []" "BlastSlow_iter_hits w b = []"
  then show "estsummary w opts [b, f] =
           ([ReadSizes f, OpenBlast b,
             Stderr ''Cutoff: {0}% ident, {1}% cov'' [I (opt_ident opts), I (opt_cov opts)],
             Stderr ''Identity: {0} mismatches, {1} gaps, {2} alignlen'' [I 0, I 0, I 0]],
            Inl ZeroDivisionError)"
    by (simp add: estsummary_two est_report_empty_sizes est_init_def)
next
  assume s: "Sizes_mapping w f = []" and n: "BlastSlow_iter_hits w b \<noteq> []"
  then obtain g gs where "BlastSlow_iter_hits w b = g # gs"
    by (cases "BlastSlow_iter_hits w b") auto
  with s show "estsummary w opts [b, f] =
           ([ReadSizes f, OpenBlast b],
            Inl (if (\<Sum>x\<leftarrow>snd (hd (BlastSlow_iter_hits w b)). hitlen x) = 0
                 then ZeroDivisionError else KeyError))"
    by (simp add: estsummary_two est_loop_empty_sizes this_loop_sums del: est_loop.simps)
next
  assume "Sizes_mapping w f = []"
    "\<exists>g\<in>set (Blast_iter_hits (snd (make_artifacts supermap b w)) (querysupermap b)). snd g \<noteq> []"
  then show "rnaseqbench supermap w [b, f] =
           ([ReadSizes f] @ fst (make_artifacts supermap b w) @ [OpenBlast (querysupermap b)],
            Inl KeyError)"
    by (auto simp: rnaseqbench_two ctg_loop_empty_sizes)
next
  assume "Sizes_mapping w f = []"
    "(\<forall>g\<in>set (Blast_iter_hits (snd (make_artifacts supermap b w)) (querysupermap b)). snd g = []) \<and>
       Blast_iter_line (snd (make_artifacts supermap b w)) (refsupermap b) \<noteq> []"
  then show "rnaseqbench supermap w [b, f] =
           ([ReadSizes f] @ fst (make_artifacts supermap b w)
              @ [OpenBlast (querysupermap b), OpenBlast (refsupermap b)],
            Inl KeyError)"
    by (simp add: rnaseqbench_two ctg_loop_empty_sizes ref_pass_empty_sizes)
next
  assume "Sizes_mapping w f = []"
    "(\<forall>g\<in>set (Blast_iter_hits (snd (make_artifacts supermap b w)) (querysupermap b)). snd g = []) \<and>
       Blast_iter_line (snd (make_artifacts supermap b w)) (refsupermap b) = []"
  then show "rnaseqbench supermap w [b, f] =
           ([ReadSizes f] @ fst (make_artifacts supermap b w)
              @ [OpenBlast (querysupermap b), OpenBlast (refsupermap b),
                 Stderr ''Reference set: `{0}`,  # of transcripts {1}'' [S f, I 0],
                 Stderr ''A total of {0} contigs map to 80% of a reference transcript'' [I 0],
                 Stderr ''A total of {0} contigs map to 50% of a reference transcript'' [I 0]],
            Inl ZeroDivisionError)"
    by (simp add: rnaseqbench_two ctg_loop_empty_sizes ref_pass_empty_sizes sizes_len_def
        bench_report_zero bench_init_def)
qed


theorem empty_sizes_always_fails_witness:
  "Sizes_mapping (fixed_world [] [] []) ''f'' = [] \<and>
   BlastSlow_iter_hits (fixed_world [] [] []) ''b'' = [] \<and>
   estsummary (fixed_world [] [] []) default_opts [''b'', ''f''] =
     ([ReadSizes ''f'', OpenBlast ''b'',
       Stderr ''Cutoff: {0}% ident, {1}% cov'' [I 95, I 90],
       Stderr ''Identity: {0} mismatches, {1} gaps, {2} alignlen'' [I 0, I 0, I 0]],
      Inl ZeroDivisionError) \<and>
   rnaseqbench touch_supermap (fixed_world [] [] []) [''b'', ''f''] =
     ([ReadSizes ''f'', OpenBlast ''b.query.supermap'', OpenBlast ''b.ref.supermap'',
       Stderr ''Reference set: `{0}`,  # of transcripts {1}'' [S ''f'', I 0],
       Stderr ''A total of {0} contigs map to 80% of a reference transcript'' [I 0],
       Stderr ''A total of {0} contigs map to 50% of a reference transcript'' [I 0]],
      Inl ZeroDivisionError) \<and>
   BlastSlow_iter_hits (fixed_world [] ex_groups []) ''b'' \<noteq> [] \<and>
   estsummary (fixed_world [] ex_groups []) default_opts [''b'', ''f'']
     = ([ReadSizes ''f'', OpenBlast ''b''], Inl KeyError) \<and>
   rnaseqbench touch_supermap (fixed_world [] ex_groups []) [''b'', ''f'']
     = ([ReadSizes ''f'', OpenBlast ''b.query.supermap''], Inl KeyError) \<and>
   Blast_iter_line (fixed_world [] [] ex_lines) ''b.ref.supermap'' \<noteq> [] \<and>
   rnaseqbench touch_supermap (fixed_world [] [] ex_lines) [''b'', ''f'']
     = ([ReadSizes ''f'', OpenBlast ''b.query.supermap'', OpenBlast ''b.ref.supermap''], Inl KeyError)"
proof -
  let ?e = "fixed_world [] [] []"
  let ?g = "fixed_world [] ex_groups []"
  let ?l = "fixed_world [] [] ex_lines"
  have m: "make_artifacts touch_supermap ''b'' (fixed_world s gs ls) = ([], fixed_world s gs ls)"
    for s gs ls
    by (simp add: make_artifacts_def ensure_supermap_def fixed_world_def)
  have s: "Sizes_mapping (fixed_world [] gs ls) ''f'' = []" for gs ls
    by (simp add: fixed_world_def)
  have e1: "BlastSlow_iter_hits ?e ''b'' = []" by (simp add: fixed_world_def)
  have e2: "(\<forall>g\<in>set (Blast_iter_hits (snd (make_artifacts touch_supermap ''b'' ?e)) (querysupermap ''b'')).
               snd g = []) \<and>
            Blast_iter_line (snd (make_artifacts touch_supermap ''b'' ?e)) (refsupermap ''b'') = []"
    by (simp add: m) (simp add: fixed_world_def)
  have g1: "BlastSlow_iter_hits ?g ''b'' \<noteq> []" by (simp add: fixed_world_def ex_groups_def)
  have g2: "\<exists>g\<in>set (Blast_iter_hits (snd (make_artifacts touch_supermap ''b'' ?g)) (querysupermap ''b'')).
               snd g \<noteq> []"
    by (simp add: m) (simp add: fixed_world_def ex_groups_def)
  have l1: "(\<forall>g\<in>set (Blast_iter_hits (snd (make_artifacts touch_supermap ''b'' ?l)) (querysupermap ''b'')).
               snd g = []) \<and>
            Blast_iter_line (snd (make_artifacts touch_supermap ''b'' ?l)) (refsupermap ''b'') \<noteq> []"
    by (simp add: m) (simp add: fixed_world_def ex_lines_def)
  note te = empty_sizes_always_fails [where w = ?e and b = "''b''" and f = "''f''" and opts = default_opts
      and supermap = touch_supermap]
  note tg = empty_sizes_always_fails [where w = ?g and b = "''b''" and f = "''f''" and opts = default_opts
      and supermap = touch_supermap]
  note tl = empty_sizes_always_fails [where w = ?l and b = "''b''" and f = "''f''" and opts = default_opts
      and supermap = touch_supermap]
  from te s e1 have r1: "estsummary ?e default_opts [''b'', ''f''] =
     ([ReadSizes ''f'', OpenBlast ''b'',
       Stderr ''Cutoff: {0}% ident, {1}% cov'' [I 95, I 90],
       Stderr ''Identity: {0} mismatches, {1} gaps, {2} alignlen'' [I 0, I 0, I 0]],
      Inl ZeroDivisionError)"
    by (simp add: default_opts_def)
  from te s e2 have r2: "rnaseqbench touch_supermap ?e [''b'', ''f''] =
     ([ReadSizes ''f'', OpenBlast ''b.query.supermap'', OpenBlast ''b.ref.supermap'',
       Stderr ''Reference set: `{0}`,  # of transcripts {1}'' [S ''f'', I 0],
       Stderr ''A total of {0} contigs map to 80% of a reference transcript'' [I 0],
       Stderr ''A total of {0} contigs map to 50% of a reference transcript'' [I 0]],
      Inl ZeroDivisionError)"
    by (simp add: m querysupermap_def refsupermap_def)
  from tg s g1 have r3: "estsummary ?g default_opts [''b'', ''f'']
     = ([ReadSizes ''f'', OpenBlast ''b''], Inl KeyError)"
    by (simp add: fixed_world_def ex_groups_def hit_def)
  from tg s g2 have r4: "rnaseqbench touch_supermap ?g [''b'', ''f'']
     = ([ReadSizes ''f'', OpenBlast ''b.query.supermap''], Inl KeyError)"
    by (simp add: m querysupermap_def)
  from tl s l1 have r5: "rnaseqbench touch_supermap ?l [''b'', ''f'']
     = ([ReadSizes ''f'', OpenBlast ''b.query.supermap'', OpenBlast ''b.ref.supermap''], Inl KeyError)"
    by (simp add: m querysupermap_def refsupermap_def)
  have l2: "Blast_iter_line ?l ''b.ref.supermap'' \<noteq> []" by (simp add: fixed_world_def ex_lines_def)
  from s [of "[]" "[]"] e1 r1 r2 g1 r3 r4 l2 r5 show ?thesis by blast
qed


end
